theory Spec2Isabelle
  imports Main "HOL-Library.Sublist" "HOL-Library.AList"
begin

section \<open>JavaScript values\<close>

text \<open>
  The logger's payloads are typed \<^verbatim>\<open>Record<string, any>\<close>: any JSON-like value can
  arrive in any property. Values are modelled by the datatype below; numbers are the
  integers (status codes, lengths and pixel counts are all this code computes with),
  objects are association lists in property order with distinct keys, and a string is
  a list of code units, so that \<open>length\<close> and \<open>take\<close> are \<^verbatim>\<open>.length\<close> and
  \<^verbatim>\<open>.substring(0, n)\<close>.
\<close>

datatype jsval =
    JUndefined
  | JNull
  | JBool bool
  | JNum int
  | JStr string
  | JArr "jsval list"
  | JObj "(string \<times> jsval) list"

type_synonym details = "(string \<times> jsval) list"

datatype js_error = TypeError | SyntaxError

text \<open>Property read \<^verbatim>\<open>o.k\<close>: a missing property is \<^verbatim>\<open>undefined\<close>.\<close>

definition getp :: "details \<Rightarrow> string \<Rightarrow> jsval" where
  "getp d k = (case map_of d k of None \<Rightarrow> JUndefined | Some v \<Rightarrow> v)"

text \<open>Truthiness, and the operator \<^verbatim>\<open>a || b\<close> on values and on strings.\<close>

fun truthy :: "jsval \<Rightarrow> bool" where
  "truthy JUndefined = False"
| "truthy JNull = False"
| "truthy (JBool b) = b"
| "truthy (JNum n) = (n \<noteq> 0)"
| "truthy (JStr s) = (s \<noteq> [])"
| "truthy (JArr xs) = True"
| "truthy (JObj kvs) = True"

definition js_or :: "jsval \<Rightarrow> jsval \<Rightarrow> jsval" where
  "js_or a b = (if truthy a then a else b)"

definition str_or :: "string \<Rightarrow> string \<Rightarrow> string" where
  "str_or a b = (if a \<noteq> [] then a else b)"

text \<open>
  \<^verbatim>\<open>v?.length\<close>: \<^verbatim>\<open>undefined\<close> on a nullish value, the length of a string or an
  array, the property called \<^verbatim>\<open>length\<close> of an object, and \<^verbatim>\<open>undefined\<close> on a
  number or a boolean.
\<close>

fun opt_length :: "jsval \<Rightarrow> jsval" where
  "opt_length (JStr s) = JNum (int (length s))"
| "opt_length (JArr xs) = JNum (int (length xs))"
| "opt_length (JObj kvs) = getp kvs ''length''"
| "opt_length v = JUndefined"

text \<open>\<^verbatim>\<open>s.includes(p)\<close> on strings: \<open>p\<close> occurs in \<open>s\<close> as a contiguous run.\<close>

fun includes_str :: "string \<Rightarrow> string \<Rightarrow> bool" where
  "includes_str [] p = (p = [])"
| "includes_str (c # s) p = (prefix p (c # s) \<or> includes_str s p)"

text \<open>
  \<^verbatim>\<open>v?.includes(p)\<close> used as a condition: a nullish \<open>v\<close> gives \<^verbatim>\<open>undefined\<close>
  (falsy), a string is searched, an array is tested for the element, and any other
  value has no method \<^verbatim>\<open>includes\<close>, so that the call raises a TypeError.
\<close>

fun opt_includes :: "jsval \<Rightarrow> string \<Rightarrow> js_error + bool" where
  "opt_includes JUndefined p = Inr False"
| "opt_includes JNull p = Inr False"
| "opt_includes (JStr s) p = Inr (includes_str s p)"
| "opt_includes (JArr xs) p = Inr (JStr p \<in> set xs)"
| "opt_includes v p = Inl TypeError"

subsection \<open>Printing\<close>

fun show_nat :: "nat \<Rightarrow> string" where
  "show_nat n = (if n < 10 then [''0123456789'' ! n]
                 else show_nat (n div 10) @ [''0123456789'' ! (n mod 10)])"

declare show_nat.simps [simp del]

definition show_int :: "int \<Rightarrow> string" where
  "show_int i = (if i < 0 then CHR ''-'' # show_nat (nat (- i)) else show_nat (nat i))"

fun intercalate :: "string \<Rightarrow> string list \<Rightarrow> string" where
  "intercalate sep [] = []"
| "intercalate sep [x] = x"
| "intercalate sep (x # y # ys) = x @ sep @ intercalate sep (y # ys)"

text \<open>
  \<^verbatim>\<open>JSON.stringify\<close> on the values above. A string is quoted, with the quote and the
  backslash escaped (the payloads considered hold no control characters); a property
  whose value is \<^verbatim>\<open>undefined\<close> is left out of an object, and \<^verbatim>\<open>undefined\<close> in
  an array prints as \<^verbatim>\<open>null\<close>. The result \<open>None\<close> is \<^verbatim>\<open>undefined\<close>.
\<close>

definition json_quote :: "string \<Rightarrow> string" where
  "json_quote s =
     [CHR 0x22] @
     concat (map (\<lambda>c. if c = CHR 0x22 \<or> c = CHR 0x5C then [CHR 0x5C, c] else [c]) s) @
     [CHR 0x22]"

fun JSON_stringify :: "jsval \<Rightarrow> string option"
  and stringify_elems :: "jsval list \<Rightarrow> string list"
  and stringify_props :: "(string \<times> jsval) list \<Rightarrow> string list"
where
  "JSON_stringify JUndefined = None"
| "JSON_stringify JNull = Some ''null''"
| "JSON_stringify (JBool b) = Some (if b then ''true'' else ''false'')"
| "JSON_stringify (JNum n) = Some (show_int n)"
| "JSON_stringify (JStr s) = Some (json_quote s)"
| "JSON_stringify (JArr xs) = Some (''['' @ intercalate '','' (stringify_elems xs) @ '']'')"
| "JSON_stringify (JObj kvs) = Some (''{'' @ intercalate '','' (stringify_props kvs) @ ''}'')"
| "stringify_elems [] = []"
| "stringify_elems (x # xs) =
     (case JSON_stringify x of None \<Rightarrow> ''null'' | Some s \<Rightarrow> s) # stringify_elems xs"
| "stringify_props [] = []"
| "stringify_props (kv # kvs) =
     (case JSON_stringify (snd kv) of
        None \<Rightarrow> stringify_props kvs
      | Some s \<Rightarrow> (json_quote (fst kv) @ '':'' @ s) # stringify_props kvs)"

text \<open>
  The conversion to a string that \<^verbatim>\<open>Array.prototype.join\<close> applies to each element.
\<close>

fun join_string :: "jsval \<Rightarrow> string" where
  "join_string JUndefined = []"
| "join_string JNull = []"
| "join_string (JBool b) = (if b then ''true'' else ''false'')"
| "join_string (JNum n) = show_int n"
| "join_string (JStr s) = s"
| "join_string (JArr xs) = intercalate '','' (map join_string xs)"
| "join_string (JObj kvs) = ''[object Object]''"

section \<open>The noise classifier\<close>

record NoiseCheck =
  isNoise :: bool
  reason :: "string option"

definition noise :: "string \<Rightarrow> NoiseCheck" where
  "noise why = \<lparr>isNoise = True, reason = Some why\<rparr>"

definition not_noise :: NoiseCheck where
  "not_noise = \<lparr>isNoise = False, reason = None\<rparr>"

text \<open>
  One URL rule of \<^verbatim>\<open>isSystemNoise\<close>:
  \<^verbatim>\<open>if (event === 'http_request' && details.url?.includes(p)) return {isNoise: true, reason}\<close>,
  followed by the rest of the function.
\<close>

definition url_rule ::
  "string \<Rightarrow> details \<Rightarrow> string \<Rightarrow> string \<Rightarrow> js_error + NoiseCheck \<Rightarrow> js_error + NoiseCheck"
where
  "url_rule event d p why rest =
     (if event = ''http_request'' then
        (case opt_includes (getp d ''url'') p of
           Inl e \<Rightarrow> Inl e
         | Inr b \<Rightarrow> if b then Inr (noise why) else rest)
      else rest)"

definition isSystemNoise :: "string \<Rightarrow> details \<Rightarrow> js_error + NoiseCheck" where
  "isSystemNoise event d =
     (if event = ''http_request'' \<and> getp d ''method'' = JStr ''OPTIONS'' then
        Inr (noise ''cors_preflight'')
      else if event = ''navigation'' \<and> getp d ''statusCode'' = JNum 308 then
        Inr (noise ''permanent_redirect'')
      else if event = ''navigation'' \<and> getp d ''statusCode'' = JNum 301 then
        Inr (noise ''moved_permanently'')
      else if event = ''navigation'' \<and> getp d ''statusCode'' = JNum 302 then
        Inr (noise ''temporary_redirect'')
      else if event = ''http_request'' \<and> getp d ''trigger'' = JStr ''browser'' then
        Inr (noise ''browser_initiated'')
      else
        url_rule event d ''/favicon'' ''favicon_request''
       (url_rule event d ''/health'' ''health_check''
       (url_rule event d ''/api/logs'' ''logging_endpoint''
       (url_rule event d ''/api/logs/stats'' ''logging_stats''
       (url_rule event d ''/socket.io'' ''websocket_connection''
       (Inr not_noise))))))"

definition businessEndpoints :: "string list" where
  "businessEndpoints =
    [''/api/customer/'', ''/api/customer/login'', ''/api/customer/register'',
     ''/api/customer/orders'', ''/api/customer/profile'', ''/api/customer/balance'',
     ''/api/restaurant/'', ''/api/restaurant/login'', ''/api/restaurant/register'',
     ''/api/restaurant/orders'', ''/api/restaurant/menu'', ''/api/restaurant/profile'',
     ''/api/restaurant_details/'', ''/api/restaurant_details/nearby'',
     ''/api/orders/'', ''/api/orders/create'', ''/api/orders/update'', ''/api/orders/status'',
     ''/api/menu/'', ''/api/menu/items'', ''/api/menu/categories'',
     ''/api/payment/'', ''/api/payment/process'', ''/api/payment/status'',
     ''/api/delivery/'', ''/api/delivery/status'', ''/api/delivery/track'',
     ''/api/user/'', ''/api/user/profile'', ''/api/user/settings'',
     ''/api/search/'', ''/api/search/restaurants'', ''/api/search/menu'',
     ''/api/reviews/'', ''/api/reviews/submit'', ''/api/reviews/list'']"

text \<open>
  \<^verbatim>\<open>businessEndpoints.some(endpoint => url.includes(endpoint))\<close>. The parameter is
  declared a string; the caller passes \<^verbatim>\<open>details.url\<close>, which is untyped, so the
  array case of \<^verbatim>\<open>includes\<close> is kept.
\<close>

definition isBusinessAPI :: "jsval \<Rightarrow> js_error + bool" where
  "isBusinessAPI url =
     (case url of
        JStr s \<Rightarrow> Inr (list_ex (\<lambda>endpoint. includes_str s endpoint) businessEndpoints)
      | JArr xs \<Rightarrow> Inr (list_ex (\<lambda>endpoint. JStr endpoint \<in> set xs) businessEndpoints)
      | _ \<Rightarrow> Inl TypeError)"

text \<open>
  \<^verbatim>\<open>isSystemNoiseEnhanced\<close> reads the logger's flag \<^verbatim>\<open>strictBusinessAPIFiltering\<close>,
  passed here as the first argument.
\<close>

definition isSystemNoiseEnhanced ::
  "bool \<Rightarrow> string \<Rightarrow> details \<Rightarrow> js_error + NoiseCheck"
where
  "isSystemNoiseEnhanced strict event d =
     (case isSystemNoise event d of
        Inl e \<Rightarrow> Inl e
      | Inr basicNoise \<Rightarrow>
          if isNoise basicNoise then Inr basicNoise
          else if strict \<and> event = ''http_request'' \<and> truthy (getp d ''url'') then
            (case isBusinessAPI (getp d ''url'') of
               Inl e \<Rightarrow> Inl e
             | Inr business \<Rightarrow>
                 if \<not> business then Inr (noise ''non_business_api'') else Inr not_noise)
          else Inr not_noise)"

section \<open>Interaction records\<close>

text \<open>
  The interface \<^verbatim>\<open>UserInteraction\<close>. A field that the logger copies from the
  untyped payload holds a \<open>jsval\<close>; the fields \<^verbatim>\<open>id\<close> and \<^verbatim>\<open>userId\<close> are
  called \<open>ui_id\<close> and \<open>ui_userId\<close> here.
\<close>

record Perf =
  submit_latency_ms :: jsval

record Viewport =
  width :: int
  height :: int

record UserInteraction =
  ui_id :: string
  timestamp :: string
  event_name :: string
  attempt_id :: string
  session_id :: string
  browser_id :: string
  route :: string
  submit_trigger :: jsval
  client_validation_passed :: bool
  username_length :: jsval
  password_length :: jsval
  autofill_used :: jsval
  caps_lock_on :: jsval
  perf :: Perf
  event_time :: string
  app_version :: string
  schema_version :: jsval
  url :: string
  userAgent :: string
  viewport :: Viewport
  inputName :: jsval
  inputType :: jsval
  inputValue :: jsval
  inputId :: jsval
  finalValueLength :: jsval
  system_noise :: bool
  noise_reason :: "string option"
  component :: jsval
  ui_userId :: "string option"
  field_presence_map :: jsval
  details :: details

text \<open>The interface \<^verbatim>\<open>CSVLogEntry\<close>, its fields prefixed with \<open>csv_\<close>.\<close>

record CSVLogEntry =
  csv_timestamp :: jsval
  csv_event :: jsval
  csv_session_id :: jsval
  csv_route :: jsval
  csv_method :: jsval
  csv_status_code :: jsval
  csv_user_id :: jsval
  csv_ip_address :: jsval
  csv_component :: jsval
  csv_action :: jsval
  csv_browser_id :: jsval
  csv_attempt_id :: jsval
  csv_details :: jsval

section \<open>The logger and the browser around it\<close>

text \<open>
  An element of the page, as far as the logger reads it. The id and the name are those of
  the attributes (empty when absent). An element that is not a form control has no
  \<^verbatim>\<open>type\<close>: the property reads \<^verbatim>\<open>undefined\<close>, here \<open>None\<close>.
\<close>

record element =
  el_id :: string
  el_name :: string
  el_tagName :: string
  el_type :: "string option"
  el_value :: string

record CSVLogger =
  csvBuffer :: "CSVLogEntry list"

definition bufferSize :: nat where
  "bufferSize = 10"

definition csvHeaders :: "string list" where
  "csvHeaders =
     [''timestamp'', ''event'', ''session_id'', ''route'', ''method'', ''status_code'',
      ''user_id'', ''ip_address'', ''component'', ''action'', ''browser_id'', ''attempt_id'',
      ''details'']"

text \<open>
  The fields of \<^verbatim>\<open>UserInteractionLogger\<close>. The two \<^verbatim>\<open>Map\<close>s are association
  lists; a stored input is the pair of its value and its field name.
\<close>

record Logger =
  sessionId :: string
  userId :: "string option"
  isEnabled :: bool
  batchSize :: nat
  logQueue :: "UserInteraction list"
  flushInterval :: nat
  flushTimer :: "nat option"
  inputChangeTimers :: "(string \<times> nat) list"
  inputChangeValues :: "(string \<times> (string \<times> string)) list"
  logSystemNoise :: bool
  filterSystemNoise :: bool
  strictBusinessAPIFiltering :: bool
  csvLogger :: CSVLogger

text \<open>
  The state of one browser tab: the logger, the clock in milliseconds, the values the
  platform returns (\<^verbatim>\<open>Math.random().toString(36).substr(2, 9)\<close> for the n-th call,
  \<^verbatim>\<open>toISOString\<close> of a time, the location, the user agent, the window size), the
  document as its elements in document order, the browser's answer to a selector that
  is not a plain attribute match (see \<open>querySelector\<close>), the pending debounce timeouts
  (identifier, due time, field key) in creation order, and the bodies of the requests to
  \<^verbatim>\<open>/api/logs\<close> and \<^verbatim>\<open>/api/logs/csv\<close> that await their response.
\<close>

record World =
  logger :: Logger
  clock :: nat
  randomCalls :: nat
  random36 :: "nat \<Rightarrow> string"
  toISOString :: "nat \<Rightarrow> string"
  loc_pathname :: string
  loc_href :: string
  nav_userAgent :: string
  win_innerWidth :: int
  win_innerHeight :: int
  document :: "element list"
  cssQuery :: "string \<Rightarrow> element list \<Rightarrow> js_error + element option"
  timeouts :: "(nat \<times> nat \<times> string) list"
  nextTimerId :: nat
  jsonPosts :: "UserInteraction list list"
  csvPosts :: "string list list"

text \<open>The field initialisers of the class, for a given session identifier.\<close>

definition newLogger :: "string \<Rightarrow> Logger" where
  "newLogger sid =
     \<lparr>sessionId = sid, userId = None, isEnabled = True, batchSize = 10, logQueue = [],
      flushInterval = 5000, flushTimer = None, inputChangeTimers = [],
      inputChangeValues = [], logSystemNoise = True, filterSystemNoise = True,
      strictBusinessAPIFiltering = True, csvLogger = \<lparr>csvBuffer = []\<rparr>\<rparr>"

definition opt_str :: "string option \<Rightarrow> jsval" where
  "opt_str x = (case x of None \<Rightarrow> JUndefined | Some s \<Rightarrow> JStr s)"

subsection \<open>Delivery of the JSON queue\<close>

datatype fetch_outcome = Response nat | Rejected

definition response_ok :: "nat \<Rightarrow> bool" where
  "response_ok status = (200 \<le> status \<and> status \<le> 299)"

text \<open>
  \<^verbatim>\<open>flushLogs\<close> up to its \<^verbatim>\<open>await\<close>: the queue is copied, emptied, and posted.
\<close>

definition flushLogs :: "World \<Rightarrow> World" where
  "flushLogs w =
     (if logQueue (logger w) = [] then w
      else
        let logsToSend = logQueue (logger w)
        in w\<lparr>logger := (logger w)\<lparr>logQueue := []\<rparr>,
             jsonPosts := jsonPosts w @ [logsToSend]\<rparr>)"

text \<open>
  \<^verbatim>\<open>flushLogs\<close> after its \<^verbatim>\<open>await\<close>, when the i-th pending request settles: a
  response that is not ok and a rejected request both put \<^verbatim>\<open>logsToSend\<close> back with
  \<^verbatim>\<open>unshift\<close>. Nothing is thrown: the result is a state.
\<close>

definition flushLogs_settled :: "nat \<Rightarrow> fetch_outcome \<Rightarrow> World \<Rightarrow> World" where
  "flushLogs_settled i outcome w =
     (if i < length (jsonPosts w) then
        let logsToSend = jsonPosts w ! i;
            w1 = w\<lparr>jsonPosts := take i (jsonPosts w) @ drop (Suc i) (jsonPosts w)\<rparr>;
            requeued = w1\<lparr>logger := (logger w1)\<lparr>logQueue := logsToSend @ logQueue (logger w1)\<rparr>\<rparr>
        in (case outcome of
              Response status \<Rightarrow> if \<not> response_ok status then requeued else w1
            | Rejected \<Rightarrow> requeued)
      else w)"

subsection \<open>The CSV sink\<close>

text \<open>
  \<^verbatim>\<open>formatToCSVEntry\<close> applied to an interaction record. Its parameter is untyped, and
  it reads properties that an interaction record does not have (\<^verbatim>\<open>event\<close>,
  \<^verbatim>\<open>action\<close>, \<^verbatim>\<open>sessionId\<close>, \<^verbatim>\<open>method\<close>, \<^verbatim>\<open>status_code\<close>,
  \<^verbatim>\<open>ip_address\<close>): each of these reads is \<^verbatim>\<open>undefined\<close>. The first argument
  is the value of \<^verbatim>\<open>new Date().toISOString()\<close>.
\<close>

definition formatToCSVEntry :: "string \<Rightarrow> UserInteraction \<Rightarrow> CSVLogEntry" where
  "formatToCSVEntry now r =
     \<lparr>csv_timestamp = js_or (JStr (timestamp r)) (JStr now),
      csv_event = js_or JUndefined (js_or JUndefined (JStr ''unknown'')),
      csv_session_id = js_or (JStr (session_id r)) (js_or JUndefined (JStr ''unknown'')),
      csv_route = js_or (JStr (route r)) (js_or (JStr (url r)) (JStr ''unknown'')),
      csv_method = js_or (getp (details r) ''method'') (js_or JUndefined (JStr [])),
      csv_status_code = js_or (getp (details r) ''status_code'') (js_or JUndefined (JStr [])),
      csv_user_id =
        js_or (getp (details r) ''user_id'')
          (js_or (opt_str (ui_userId r)) (js_or (JStr (browser_id r)) (JStr []))),
      csv_ip_address = js_or (getp (details r) ''ip_address'') (js_or JUndefined (JStr [])),
      csv_component = js_or (component r) (js_or (getp (details r) ''component'') (JStr [])),
      csv_action = js_or JUndefined (js_or JUndefined (JStr [])),
      csv_browser_id = js_or (JStr (browser_id r)) (js_or (opt_str (ui_userId r)) (JStr [])),
      csv_attempt_id = js_or (JStr (attempt_id r)) (JStr []),
      csv_details =
        (case JSON_stringify (JObj (details r)) of None \<Rightarrow> JUndefined | Some s \<Rightarrow> JStr s)\<rparr>"

text \<open>\<^verbatim>\<open>entry[header]\<close> for the headers of \<^verbatim>\<open>csvHeaders\<close>.\<close>

definition csv_field :: "CSVLogEntry \<Rightarrow> string \<Rightarrow> jsval" where
  "csv_field e h =
     (if h = ''timestamp'' then csv_timestamp e
      else if h = ''event'' then csv_event e
      else if h = ''session_id'' then csv_session_id e
      else if h = ''route'' then csv_route e
      else if h = ''method'' then csv_method e
      else if h = ''status_code'' then csv_status_code e
      else if h = ''user_id'' then csv_user_id e
      else if h = ''ip_address'' then csv_ip_address e
      else if h = ''component'' then csv_component e
      else if h = ''action'' then csv_action e
      else if h = ''browser_id'' then csv_browser_id e
      else if h = ''attempt_id'' then csv_attempt_id e
      else if h = ''details'' then csv_details e
      else JUndefined)"

definition csv_line :: "CSVLogEntry \<Rightarrow> string" where
  "csv_line entry =
     intercalate '','' (map (\<lambda>header. join_string (js_or (csv_field entry header) (JStr []))) csvHeaders)"

text \<open>
  \<^verbatim>\<open>CSVLogger.flush\<close> up to the \<^verbatim>\<open>await\<close> inside \<^verbatim>\<open>sendCSVLogs\<close>: the lines
  are built and posted; the buffer is not touched until the request settles.
\<close>

definition csv_flush :: "World \<Rightarrow> World" where
  "csv_flush w =
     (if csvBuffer (csvLogger (logger w)) = [] then w
      else w\<lparr>csvPosts := csvPosts w @ [map csv_line (csvBuffer (csvLogger (logger w)))]\<rparr>)"

text \<open>
  \<^verbatim>\<open>CSVLogger.flush\<close> after the \<^verbatim>\<open>await\<close>: an ok response empties the buffer, a
  failure is caught and reported on the console.
\<close>

definition csv_flush_settled :: "nat \<Rightarrow> fetch_outcome \<Rightarrow> World \<Rightarrow> World" where
  "csv_flush_settled i outcome w =
     (if i < length (csvPosts w) then
        let w1 = w\<lparr>csvPosts := take i (csvPosts w) @ drop (Suc i) (csvPosts w)\<rparr>;
            cleared = w1\<lparr>logger := (logger w1)\<lparr>csvLogger := \<lparr>csvBuffer = []\<rparr>\<rparr>\<rparr>
        in (case outcome of
              Response status \<Rightarrow> if response_ok status then cleared else w1
            | Rejected \<Rightarrow> w1)
      else w)"

definition logToCSV :: "UserInteraction \<Rightarrow> World \<Rightarrow> World" where
  "logToCSV data w =
     (let csvEntry = formatToCSVEntry (toISOString w (clock w)) data;
          w1 = w\<lparr>logger := (logger w)\<lparr>csvLogger :=
                 \<lparr>csvBuffer = csvBuffer (csvLogger (logger w)) @ [csvEntry]\<rparr>\<rparr>\<rparr>
      in if bufferSize \<le> length (csvBuffer (csvLogger (logger w1))) then csv_flush w1 else w1)"

subsection \<open>logInteraction\<close>

text \<open>The object literal that \<^verbatim>\<open>logInteraction\<close> builds.\<close>

definition mkInteraction :: "World \<Rightarrow> string \<Rightarrow> details \<Rightarrow> NoiseCheck \<Rightarrow> UserInteraction" where
  "mkInteraction w event d noiseCheck =
     \<lparr>ui_id = ''log_'' @ show_nat (clock w) @ ''_'' @ random36 w (randomCalls w),
      timestamp = toISOString w (clock w),
      event_name = event,
      attempt_id = ''log_'' @ show_nat (clock w) @ ''_'' @ random36 w (Suc (randomCalls w)),
      session_id = sessionId (logger w),
      browser_id = (case userId (logger w) of None \<Rightarrow> ''anonymous'' | Some u \<Rightarrow> str_or u ''anonymous''),
      route = loc_pathname w,
      submit_trigger = js_or (getp d ''trigger'') (JStr ''unknown''),
      client_validation_passed = (getp d ''validation'' \<noteq> JBool False),
      username_length = js_or (opt_length (getp d ''username'')) (JNum 0),
      password_length = js_or (opt_length (getp d ''password'')) (JNum 0),
      autofill_used = js_or (getp d ''autofill'') (JBool False),
      caps_lock_on = js_or (getp d ''capsLock'') (JBool False),
      perf = \<lparr>submit_latency_ms = js_or (getp d ''latency'') (JNum 0)\<rparr>,
      event_time = toISOString w (clock w),
      app_version = ''web-1.4.2'',
      schema_version = js_or (getp d ''schema_version'') (JStr ''frontend.v1''),
      url = loc_href w,
      userAgent = nav_userAgent w,
      viewport = \<lparr>width = win_innerWidth w, height = win_innerHeight w\<rparr>,
      inputName = getp d ''inputName'',
      inputType = getp d ''inputType'',
      inputValue = getp d ''inputValue'',
      inputId = getp d ''inputId'',
      finalValueLength = getp d ''finalValueLength'',
      system_noise = isNoise noiseCheck,
      noise_reason = reason noiseCheck,
      component = js_or (getp d ''component'') (JStr ''unknown''),
      ui_userId = userId (logger w),
      field_presence_map = getp d ''field_presence_map'',
      details = d\<rparr>"

text \<open>
  The end of \<^verbatim>\<open>logInteraction\<close>, once the record is built: the push onto the queue,
  the call of the CSV logger, and the flush of a full queue. The two calls of
  \<^verbatim>\<open>Math.random\<close> that built the record advance the counter of random draws.
\<close>

definition enqueue :: "UserInteraction \<Rightarrow> World \<Rightarrow> World" where
  "enqueue interaction w =
     (let w1 = w\<lparr>randomCalls := randomCalls w + 2\<rparr>;
          w2 = w1\<lparr>logger := (logger w1)\<lparr>logQueue := logQueue (logger w1) @ [interaction]\<rparr>\<rparr>;
          w3 = logToCSV interaction w2
      in if batchSize (logger w3) \<le> length (logQueue (logger w3)) then flushLogs w3 else w3)"

text \<open>
  \<^verbatim>\<open>logInteraction\<close>. The classifier runs before anything is written, so a TypeError
  it raises leaves the state as it was.
\<close>

definition logInteraction :: "string \<Rightarrow> details \<Rightarrow> World \<Rightarrow> js_error + World" where
  "logInteraction event d w =
     (if \<not> isEnabled (logger w) then Inr w
      else
        (case isSystemNoiseEnhanced (strictBusinessAPIFiltering (logger w)) event d of
           Inl e \<Rightarrow> Inl e
         | Inr noiseCheck \<Rightarrow>
             if isNoise noiseCheck \<and> \<not> logSystemNoise (logger w) then Inr w
             else Inr (enqueue (mkInteraction w event d noiseCheck) w)))"

subsection \<open>Debounced input logging\<close>

text \<open>
  \<^verbatim>\<open>`${target.id || target.name || target.tagName}_${target.type}`\<close>, and the field
  name \<^verbatim>\<open>target.name || target.id || target.tagName\<close>.
\<close>

definition fieldKeyOf :: "element \<Rightarrow> string" where
  "fieldKeyOf target =
     str_or (el_id target) (str_or (el_name target) (el_tagName target)) @ ''_'' @
     (case el_type target of None \<Rightarrow> ''undefined'' | Some type \<Rightarrow> type)"

definition fieldNameOf :: "element \<Rightarrow> string" where
  "fieldNameOf target = str_or (el_name target) (str_or (el_id target) (el_tagName target))"

definition clearTimeout :: "nat \<Rightarrow> World \<Rightarrow> World" where
  "clearTimeout tid w = w\<lparr>timeouts := filter (\<lambda>t. fst t \<noteq> tid) (timeouts w)\<rparr>"

text \<open>
  \<^verbatim>\<open>document.querySelector(`[name="${n}"], [id="${n}"]`)\<close>. The name is pasted into
  the selector between double quotes. When it holds no double quote, no backslash, no
  line break (line feed, carriage return, form feed) and no null character, the selector
  is the plain one: it matches an element whose name attribute or whose id attribute is
  \<open>n\<close>, and the query returns the first such element of the document. Any other name
  changes the selector's text (the quote ends the string, the backslash starts an escape,
  the line break makes it invalid); what the browser answers then, an exception included,
  is \<open>cssQuery\<close>, about which nothing is assumed.
\<close>

definition selector_plain :: "string \<Rightarrow> bool" where
  "selector_plain n =
     list_all (\<lambda>c. c \<notin> {CHR 0x00, CHR 0x0A, CHR 0x0C, CHR 0x0D, CHR 0x22, CHR 0x5C}) n"

definition querySelector :: "World \<Rightarrow> string \<Rightarrow> js_error + element option" where
  "querySelector w n =
     (if selector_plain n then Inr (find (\<lambda>e. el_name e = n \<or> el_id e = n) (document w))
      else cssQuery w n (document w))"

definition debouncedInputChange :: "element \<Rightarrow> World \<Rightarrow> World" where
  "debouncedInputChange target w =
     (let fieldKey = fieldKeyOf target;
          w1 = (case map_of (inputChangeTimers (logger w)) fieldKey of
                  Some tid \<Rightarrow> clearTimeout tid w
                | None \<Rightarrow> w);
          w2 = w1\<lparr>logger := (logger w1)\<lparr>inputChangeValues :=
                 AList.update fieldKey (el_value target, fieldNameOf target)
                   (inputChangeValues (logger w1))\<rparr>\<rparr>;
          timer = nextTimerId w2;
          w3 = w2\<lparr>timeouts := timeouts w2 @ [(timer, clock w2 + 500, fieldKey)],
                  nextTimerId := Suc timer\<rparr>
      in w3\<lparr>logger := (logger w3)\<lparr>inputChangeTimers :=
              AList.update fieldKey timer (inputChangeTimers (logger w3))\<rparr>\<rparr>)"

text \<open>
  The payload that both emitters pass to \<^verbatim>\<open>logInteraction\<close>; \<open>type\<close> is
  \<^verbatim>\<open>target.type\<close>.
\<close>

definition input_change_details ::
  "string \<Rightarrow> string \<Rightarrow> string option \<Rightarrow> string \<Rightarrow> string \<Rightarrow> details"
where
  "input_change_details trig name type val ident =
     [(''trigger'', JStr trig),
      (''inputName'', JStr name),
      (''inputType'', opt_str type),
      (''inputValue'', JStr (if type = Some ''password'' then ''[HIDDEN]'' else take 100 val)),
      (''inputId'', JStr ident),
      (''finalValueLength'', JNum (int (length val))),
      (''schema_version'', JStr ''input_change.v1'')]"

text \<open>
  The callback of the debounce timer. An exception of the query leaves the callback
  before anything is written.
\<close>

definition logDebouncedInputChange :: "string \<Rightarrow> World \<Rightarrow> js_error + World" where
  "logDebouncedInputChange fieldKey w =
     (case map_of (inputChangeValues (logger w)) fieldKey of
        None \<Rightarrow> Inr w
      | Some inputData \<Rightarrow>
          (case querySelector w (snd inputData) of
             Inl e \<Rightarrow> Inl e
           | Inr None \<Rightarrow> Inr w
           | Inr (Some target) \<Rightarrow>
               (case logInteraction ''input_change''
                       (input_change_details ''debounced_input'' (snd inputData) (el_type target)
                          (fst inputData) (el_id target)) w of
                  Inl e \<Rightarrow> Inl e
                | Inr w1 \<Rightarrow>
                    Inr (w1\<lparr>logger := (logger w1)\<lparr>
                           inputChangeValues := AList.delete fieldKey (inputChangeValues (logger w1)),
                           inputChangeTimers := AList.delete fieldKey (inputChangeTimers (logger w1))\<rparr>\<rparr>))))"

text \<open>
  \<^verbatim>\<open>storedData?.value || target.value\<close>: the stored value, or the live value of the
  field when nothing is stored or the stored value is empty. In
  \<^verbatim>\<open>logInputChangeOnBlur\<close> below, as in the timer's callback, the branch for an
  exception of \<^verbatim>\<open>logInteraction\<close> is never taken: the classifier does not throw on
  an \<^verbatim>\<open>input_change\<close> event.
\<close>

definition finalValueOnBlur :: "element \<Rightarrow> World \<Rightarrow> string" where
  "finalValueOnBlur target w =
     (case map_of (inputChangeValues (logger w)) (fieldKeyOf target) of
        Some inputData \<Rightarrow> str_or (fst inputData) (el_value target)
      | None \<Rightarrow> el_value target)"

definition logInputChangeOnBlur :: "element \<Rightarrow> World \<Rightarrow> js_error + World" where
  "logInputChangeOnBlur target w =
     (let fieldKey = fieldKeyOf target;
          w1 = (case map_of (inputChangeTimers (logger w)) fieldKey of
                  Some tid \<Rightarrow>
                    (let w0 = clearTimeout tid w
                     in w0\<lparr>logger := (logger w0)\<lparr>inputChangeTimers :=
                            AList.delete fieldKey (inputChangeTimers (logger w0))\<rparr>\<rparr>)
                | None \<Rightarrow> w);
          finalValue = finalValueOnBlur target w1
      in (case logInteraction ''input_change''
                 (input_change_details ''blur'' (fieldNameOf target) (el_type target)
                    finalValue (el_id target)) w1 of
            Inl e \<Rightarrow> Inl e
          | Inr w2 \<Rightarrow>
              Inr (w2\<lparr>logger := (logger w2)\<lparr>inputChangeValues :=
                     AList.delete fieldKey (inputChangeValues (logger w2))\<rparr>\<rparr>)))"

subsection \<open>The passing of time\<close>

text \<open>
  A due timeout that is still pending leaves the list of timeouts and runs its callback;
  an exception in the callback is reported by the browser and leaves the state the
  callback had reached, which is the state before the callback (the query and the
  classifier throw before anything is written).
\<close>

definition fire :: "nat \<times> nat \<times> string \<Rightarrow> World \<Rightarrow> World" where
  "fire t w =
     (if fst t \<in> fst ` set (timeouts w) then
        let w1 = w\<lparr>clock := max (clock w) (fst (snd t)),
                  timeouts := filter (\<lambda>u. fst u \<noteq> fst t) (timeouts w)\<rparr>
        in (case logDebouncedInputChange (snd (snd t)) w1 of Inl e \<Rightarrow> w1 | Inr w2 \<Rightarrow> w2)
      else w)"

text \<open>
  \<open>advance d\<close> lets \<open>d\<close> milliseconds pass: the timeouts due by then (\<open>due_now\<close>) fire
  one after the other (\<open>run\<close>), in the order of their due times (creation order among
  equals). The callback sets no timeout, so the timeouts due are those pending at the
  start.
\<close>

definition due_now :: "nat \<Rightarrow> World \<Rightarrow> (nat \<times> nat \<times> string) list" where
  "due_now d w =
     sort_key (\<lambda>t. fst (snd t)) (filter (\<lambda>t. fst (snd t) \<le> clock w + d) (timeouts w))"

definition run :: "(nat \<times> nat \<times> string) list \<Rightarrow> World \<Rightarrow> World" where
  "run ts w = foldl (\<lambda>v t. fire t v) w ts"

definition advance :: "nat \<Rightarrow> World \<Rightarrow> World" where
  "advance d w = (run (due_now d w) w)\<lparr>clock := clock w + d\<rparr>"


text \<open>
  The records that the JSON path holds and has not yet seen acknowledged: those of the
  requests in flight, then the live queue.
\<close>

definition json_pending :: "World \<Rightarrow> UserInteraction list" where
  "json_pending w = concat (jsonPosts w) @ logQueue (logger w)"

text \<open>A call is accepted when the logger is enabled and the noise toggle keeps it.\<close>

definition accepted :: "string \<Rightarrow> details \<Rightarrow> World \<Rightarrow> bool" where
  "accepted event d w =
     (isEnabled (logger w) \<and>
      (case isSystemNoiseEnhanced (strictBusinessAPIFiltering (logger w)) event d of
         Inl e \<Rightarrow> False
       | Inr noiseCheck \<Rightarrow> \<not> (isNoise noiseCheck \<and> \<not> logSystemNoise (logger w))))"

text \<open>The record an accepted call builds.\<close>

definition interactionOf :: "string \<Rightarrow> details \<Rightarrow> World \<Rightarrow> UserInteraction" where
  "interactionOf event d w =
     mkInteraction w event d
       (case isSystemNoiseEnhanced (strictBusinessAPIFiltering (logger w)) event d of
          Inl e \<Rightarrow> not_noise
        | Inr noiseCheck \<Rightarrow> noiseCheck)"

text \<open>
  A sequence of calls of \<^verbatim>\<open>logInteraction\<close>; a call that throws leaves the state as
  it was.
\<close>

fun logMany :: "(string \<times> details) list \<Rightarrow> World \<Rightarrow> World" where
  "logMany [] w = w"
| "logMany (c # cs) w =
     logMany cs (case logInteraction (fst c) (snd c) w of Inl e \<Rightarrow> w | Inr w1 \<Rightarrow> w1)"

section \<open>The dashboard viewer\<close>

text \<open>
  A stored record reaches the viewer as parsed JSON, so a field can be missing: it is an
  object of type \<open>details\<close> here. The card below holds, for one record, the values that
  the log card hands to the renderer, in the order in which the markup computes them.
\<close>

record LogCard =
  badge_class :: string
  badge_text :: jsval
  component_text :: jsval
  time_text :: string
  url_text :: jsval
  user_block :: "jsval option"
  session_text :: string
  details_block :: "jsval option"
  viewport_width :: jsval
  viewport_height :: jsval
  current_badge :: bool

text \<open>
  \<^verbatim>\<open>formatTimestamp\<close>; the platform's \<^verbatim>\<open>new Date(t).toLocaleString()\<close> is the
  parameter \<open>toLocale\<close>.
\<close>

definition formatTimestamp :: "(jsval \<Rightarrow> string) \<Rightarrow> jsval \<Rightarrow> string" where
  "formatTimestamp toLocale ts = (if \<not> truthy ts then ''Unknown time'' else toLocale ts)"

definition actionColors :: "(string \<times> string) list" where
  "actionColors =
     [(''click'', ''bg-blue-100 text-blue-800''),
      (''form_submit'', ''bg-green-100 text-green-800''),
      (''input_change'', ''bg-yellow-100 text-yellow-800''),
      (''page_view'', ''bg-purple-100 text-purple-800''),
      (''scroll'', ''bg-gray-100 text-gray-800''),
      (''window_resize'', ''bg-indigo-100 text-indigo-800''),
      (''error'', ''bg-red-100 text-red-800''),
      (''navigation'', ''bg-pink-100 text-pink-800'')]"

definition getActionColor :: "jsval \<Rightarrow> string" where
  "getActionColor action =
     (case action of
        JStr a \<Rightarrow> (case map_of actionColors a of
                     Some c \<Rightarrow> c
                   | None \<Rightarrow> ''bg-gray-100 text-gray-800'')
      | _ \<Rightarrow> ''bg-gray-100 text-gray-800'')"

text \<open>\<^verbatim>\<open>log.session_id?.substring(0, 20) || 'Unknown'\<close>, followed by the dots.\<close>

definition sessionLabel :: "jsval \<Rightarrow> js_error + string" where
  "sessionLabel sid =
     (case sid of
        JUndefined \<Rightarrow> Inr (''Unknown'' @ ''...'')
      | JNull \<Rightarrow> Inr (''Unknown'' @ ''...'')
      | JStr s \<Rightarrow> Inr (str_or (take 20 s) ''Unknown'' @ ''...'')
      | _ \<Rightarrow> Inl TypeError)"

text \<open>
  \<^verbatim>\<open>Object.keys(v).length\<close>: a TypeError on \<^verbatim>\<open>undefined\<close> and \<^verbatim>\<open>null\<close>.
\<close>

definition keysCount :: "jsval \<Rightarrow> js_error + nat" where
  "keysCount v =
     (case v of
        JUndefined \<Rightarrow> Inl TypeError
      | JNull \<Rightarrow> Inl TypeError
      | JObj kvs \<Rightarrow> Inr (length kvs)
      | JArr xs \<Rightarrow> Inr (length xs)
      | JStr s \<Rightarrow> Inr (length s)
      | _ \<Rightarrow> Inr 0)"

text \<open>
  \<^verbatim>\<open>v.k\<close> for a field \<open>k\<close> other than \<^verbatim>\<open>length\<close>: a TypeError on
  \<^verbatim>\<open>undefined\<close> and \<^verbatim>\<open>null\<close>.
\<close>

definition member :: "jsval \<Rightarrow> string \<Rightarrow> js_error + jsval" where
  "member v k =
     (case v of
        JUndefined \<Rightarrow> Inl TypeError
      | JNull \<Rightarrow> Inl TypeError
      | JObj kvs \<Rightarrow> Inr (getp kvs k)
      | _ \<Rightarrow> Inr JUndefined)"

definition renderLogCard ::
  "(jsval \<Rightarrow> string) \<Rightarrow> string \<Rightarrow> details \<Rightarrow> js_error + LogCard"
where
  "renderLogCard toLocale currentSessionId log =
     (case sessionLabel (getp log ''session_id'') of
        Inl e \<Rightarrow> Inl e
      | Inr session \<Rightarrow>
     (case keysCount (getp log ''details'') of
        Inl e \<Rightarrow> Inl e
      | Inr n \<Rightarrow>
     (case member (getp log ''viewport'') ''width'' of
        Inl e \<Rightarrow> Inl e
      | Inr vw \<Rightarrow>
     (case member (getp log ''viewport'') ''height'' of
        Inl e \<Rightarrow> Inl e
      | Inr vh \<Rightarrow>
          Inr \<lparr>badge_class = getActionColor (js_or (getp log ''event_name'') (JStr [])),
               badge_text = getp log ''event_name'',
               component_text = getp log ''component'',
               time_text =
                 formatTimestamp toLocale
                   (js_or (getp log ''timestamp'') (js_or (getp log ''event_time'') (JStr []))),
               url_text = getp log ''url'',
               user_block =
                 (if truthy (getp log ''userId'') then Some (getp log ''userId'') else None),
               session_text = session,
               details_block = (if 0 < n then Some (getp log ''details'') else None),
               viewport_width = vw,
               viewport_height = vh,
               current_badge = (getp log ''session_id'' = JStr currentSessionId)\<rparr>))))"

section \<open>Notions used in the statements and in the proofs\<close>

text \<open>A delivery fails when the response is not ok or the request is rejected.\<close>

definition delivery_failed :: "fetch_outcome \<Rightarrow> bool" where
  "delivery_failed outcome =
     (case outcome of Response status \<Rightarrow> \<not> response_ok status | Rejected \<Rightarrow> True)"

text \<open>What \<^verbatim>\<open>debouncedInputChange\<close> stores for a target.\<close>

definition storedOf :: "element \<Rightarrow> string \<times> string" where
  "storedOf t = (el_value t, fieldNameOf t)"

text \<open>The field key and the due time of a timeout.\<close>

definition keyOf :: "nat \<times> nat \<times> string \<Rightarrow> string" where
  "keyOf t = snd (snd t)"

definition dueOf :: "nat \<times> nat \<times> string \<Rightarrow> nat" where
  "dueOf t = fst (snd t)"

text \<open>The timeouts of a list that belong to the field \<open>k\<close>, and those of the other fields.\<close>

definition of_field :: "string \<Rightarrow> (nat \<times> nat \<times> string) list \<Rightarrow> (nat \<times> nat \<times> string) list" where
  "of_field k ts = filter (\<lambda>t. keyOf t = k) ts"

definition of_others :: "string \<Rightarrow> (nat \<times> nat \<times> string) list \<Rightarrow> (nat \<times> nat \<times> string) list" where
  "of_others k ts = filter (\<lambda>t. keyOf t \<noteq> k) ts"

text \<open>
  The bookkeeping of the field \<open>k\<close> is consistent, as it is in every state that the
  logger reaches from a state without timeouts: the pending timeouts have distinct
  identifiers, all handed out already; a pending timeout belongs to \<open>k\<close> exactly when its
  identifier is the one that the logger's map holds for \<open>k\<close>; and that identifier has
  been handed out already.
\<close>

definition timers_ok :: "string \<Rightarrow> World \<Rightarrow> bool" where
  "timers_ok k w =
     (distinct (map fst (timeouts w)) \<and>
      (\<forall>t \<in> set (timeouts w). fst t < nextTimerId w) \<and>
      (\<forall>t \<in> set (timeouts w).
         (keyOf t = k) = (map_of (inputChangeTimers (logger w)) k = Some (fst t))) \<and>
      (case map_of (inputChangeTimers (logger w)) k of
         None \<Rightarrow> True
       | Some n \<Rightarrow> n < nextTimerId w))"

text \<open>
  The field \<open>k\<close> is armed: its timeout \<open>(n, due, k)\<close> is pending, and the logger's maps
  hold the timeout's identifier and the stored input for \<open>k\<close>.
\<close>

definition armed :: "string \<Rightarrow> string \<times> string \<Rightarrow> nat \<Rightarrow> nat \<Rightarrow> World \<Rightarrow> bool" where
  "armed k stored n due w =
     ((n, due, k) \<in> set (timeouts w) \<and>
      map_of (inputChangeTimers (logger w)) k = Some n \<and>
      map_of (inputChangeValues (logger w)) k = Some stored)"

text \<open>Two states with the same switch and the same page.\<close>

definition same_page :: "World \<Rightarrow> World \<Rightarrow> bool" where
  "same_page w w1 =
     (isEnabled (logger w1) = isEnabled (logger w) \<and> document w1 = document w \<and>
      cssQuery w1 = cssQuery w)"





section \<open>Sample states\<close>

definition demo_world :: World where
  "demo_world =
     \<lparr>logger = newLogger ''session_1_abc'', clock = 1000, randomCalls = 0,
      random36 = (\<lambda>n. ''r'' @ show_nat n), toISOString = (\<lambda>t. ''T'' @ show_nat t),
      loc_pathname = ''/login'', loc_href = ''http://localhost/login'',
      nav_userAgent = ''UA'', win_innerWidth = 800, win_innerHeight = 600,
      document = [], cssQuery = (\<lambda>n doc. Inl SyntaxError), timeouts = [], nextTimerId = 0,
      jsonPosts = [], csvPosts = []\<rparr>"

definition login_payload :: details where
  "login_payload =
     [(''trigger'', JStr ''submit''), (''username'', JStr ''alice''),
      (''password'', JStr ''hunter2'')]"

definition stored_without_details :: details where
  "stored_without_details =
     [(''id'', JStr ''log_1''), (''event_name'', JStr ''click''),
      (''timestamp'', JStr ''2025-08-24T15:30:00Z''), (''session_id'', JStr ''s1''),
      (''viewport'', JObj [(''width'', JNum 800), (''height'', JNum 600)])]"

definition stored_without_timestamp :: details where
  "stored_without_timestamp =
     [(''id'', JStr ''log_2''), (''event_name'', JStr ''click''),
      (''details'', JObj []),
      (''viewport'', JObj [(''width'', JNum 800), (''height'', JNum 600)])]"

definition email_field :: element where
  "email_field =
     \<lparr>el_id = ''email'', el_name = ''email'', el_tagName = ''INPUT'', el_type = Some ''email'',
      el_value = []\<rparr>"

definition page_world :: World where
  "page_world = demo_world\<lparr>document := [email_field]\<rparr>"








text \<open>
  A password field with the id \<^verbatim>\<open>pin\<close>, followed in the document by a text field
  with the name \<^verbatim>\<open>pin\<close> and no id, which holds the value \<^verbatim>\<open>1234\<close>.
\<close>

definition pin_password :: element where
  "pin_password =
     \<lparr>el_id = ''pin'', el_name = ''secret'', el_tagName = ''INPUT'', el_type = Some ''password'',
      el_value = []\<rparr>"

definition pin_text :: element where
  "pin_text =
     \<lparr>el_id = [], el_name = ''pin'', el_tagName = ''INPUT'', el_type = Some ''text'',
      el_value = ''1234''\<rparr>"

definition pin_world :: World where
  "pin_world = demo_world\<lparr>document := [pin_password, pin_text]\<rparr>"

text \<open>A text field with neither an id nor a name, alone in its document.\<close>

definition anon_field :: element where
  "anon_field =
     \<lparr>el_id = [], el_name = [], el_tagName = ''INPUT'', el_type = Some ''text'', el_value = []\<rparr>"

definition anon_page_world :: World where
  "anon_page_world = demo_world\<lparr>document := [anon_field]\<rparr>"

definition click_record :: UserInteraction where
  "click_record = interactionOf ''click'' [] demo_world"

definition scroll_record :: UserInteraction where
  "scroll_record = interactionOf ''scroll'' [] demo_world"

text \<open>Two records in the queue, and nine records in the queue and in the CSV buffer.\<close>

definition two_queued :: World where
  "two_queued =
     demo_world\<lparr>logger := (logger demo_world)\<lparr>logQueue := [click_record, scroll_record]\<rparr>\<rparr>"

definition nine_queued :: World where
  "nine_queued =
     demo_world\<lparr>logger := (logger demo_world)\<lparr>
       logQueue := replicate 9 click_record,
       csvLogger := \<lparr>csvBuffer = replicate 9 (formatToCSVEntry ''T1000'' click_record)\<rparr>\<rparr>\<rparr>"

section \<open>Properties of the classifier\<close>

lemma includes_str_sublist: "includes_str s p = sublist p s"
  by (induction s) (auto simp: sublist_Cons_right)

lemma options_is_noise:
  "getp d ''method'' = JStr ''OPTIONS'' \<Longrightarrow>
     isSystemNoise ''http_request'' d = Inr (noise ''cors_preflight'')"
  by (simp add: isSystemNoise_def)

lemma redirect_is_noise:
  "getp d ''statusCode'' = JNum 301 \<Longrightarrow>
     isSystemNoise ''navigation'' d = Inr (noise ''moved_permanently'')"
  "getp d ''statusCode'' = JNum 302 \<Longrightarrow>
     isSystemNoise ''navigation'' d = Inr (noise ''temporary_redirect'')"
  "getp d ''statusCode'' = JNum 308 \<Longrightarrow>
     isSystemNoise ''navigation'' d = Inr (noise ''permanent_redirect'')"
  by (simp_all add: isSystemNoise_def)

lemma basic_noise_carries_over:
  "isSystemNoise event d = Inr nc \<Longrightarrow> isNoise nc \<Longrightarrow>
     isSystemNoiseEnhanced strict event d = Inr nc"
  by (simp add: isSystemNoiseEnhanced_def)

text \<open>
  Claim C5. Whatever else the payload holds, and whatever the strict flag says, an
  \<^verbatim>\<open>http_request\<close> whose method is \<^verbatim>\<open>OPTIONS\<close> is classified as noise with reason
  \<^verbatim>\<open>cors_preflight\<close>, and a \<^verbatim>\<open>navigation\<close> whose status code is 301, 302 or 308
  is classified as noise with reason \<^verbatim>\<open>moved_permanently\<close>,
  \<^verbatim>\<open>temporary_redirect\<close> or \<^verbatim>\<open>permanent_redirect\<close>.
\<close>

theorem classify_cors_and_redirects:
  "(getp d ''method'' = JStr ''OPTIONS'' \<longrightarrow>
      isSystemNoiseEnhanced strict ''http_request'' d =
        Inr \<lparr>isNoise = True, reason = Some ''cors_preflight''\<rparr>) \<and>
   (getp d ''statusCode'' = JNum 301 \<longrightarrow>
      isSystemNoiseEnhanced strict ''navigation'' d =
        Inr \<lparr>isNoise = True, reason = Some ''moved_permanently''\<rparr>) \<and>
   (getp d ''statusCode'' = JNum 302 \<longrightarrow>
      isSystemNoiseEnhanced strict ''navigation'' d =
        Inr \<lparr>isNoise = True, reason = Some ''temporary_redirect''\<rparr>) \<and>
   (getp d ''statusCode'' = JNum 308 \<longrightarrow>
      isSystemNoiseEnhanced strict ''navigation'' d =
        Inr \<lparr>isNoise = True, reason = Some ''permanent_redirect''\<rparr>)"
proof -
  have n: "\<And>why. isNoise (noise why)" by (simp add: noise_def)
  show ?thesis
    using basic_noise_carries_over [OF options_is_noise n, of d strict]
      basic_noise_carries_over [OF redirect_is_noise(1) n, of d strict]
      basic_noise_carries_over [OF redirect_is_noise(2) n, of d strict]
      basic_noise_carries_over [OF redirect_is_noise(3) n, of d strict]
    by (simp add: noise_def)
qed

theorem classify_cors_and_redirects_witness:
  "isSystemNoiseEnhanced True ''http_request'' [(''method'', JStr ''OPTIONS''), (''url'', JNum 7)] =
     Inr \<lparr>isNoise = True, reason = Some ''cors_preflight''\<rparr> \<and>
   isSystemNoiseEnhanced True ''navigation'' [(''statusCode'', JNum 301)] =
     Inr \<lparr>isNoise = True, reason = Some ''moved_permanently''\<rparr> \<and>
   isSystemNoiseEnhanced False ''navigation'' [(''statusCode'', JNum 302)] =
     Inr \<lparr>isNoise = True, reason = Some ''temporary_redirect''\<rparr> \<and>
   isSystemNoiseEnhanced True ''navigation'' [(''statusCode'', JNum 308)] =
     Inr \<lparr>isNoise = True, reason = Some ''permanent_redirect''\<rparr>"
  using classify_cors_and_redirects [of "[(''method'', JStr ''OPTIONS''), (''url'', JNum 7)]" True]
    classify_cors_and_redirects [of "[(''statusCode'', JNum 301)]" True]
    classify_cors_and_redirects [of "[(''statusCode'', JNum 302)]" False]
    classify_cors_and_redirects [of "[(''statusCode'', JNum 308)]" True]
  by (simp add: getp_def)





section \<open>Properties of logInteraction\<close>

text \<open>
  Claim C9. While logging is disabled, \<^verbatim>\<open>logInteraction\<close> returns without an
  exception and leaves the whole state as it was: the queue, the CSV buffer, the debounce
  maps and timeouts, and the requests in flight (none is issued).
\<close>

theorem disabled_is_noop:
  "\<not> isEnabled (logger w) \<Longrightarrow> logInteraction event d w = Inr w"
  by (simp add: logInteraction_def)

theorem disabled_is_noop_witness:
  "\<not> isEnabled (logger (demo_world\<lparr>logger := (logger demo_world)\<lparr>isEnabled := False\<rparr>\<rparr>)) \<and>
   logInteraction ''login_attempt'' login_payload
     (demo_world\<lparr>logger := (logger demo_world)\<lparr>isEnabled := False\<rparr>\<rparr>) =
   Inr (demo_world\<lparr>logger := (logger demo_world)\<lparr>isEnabled := False\<rparr>\<rparr>)"
  using disabled_is_noop
    [of "demo_world\<lparr>logger := (logger demo_world)\<lparr>isEnabled := False\<rparr>\<rparr>"
        "''login_attempt''" login_payload]
  by simp

lemma enqueue_json_pending: "json_pending (enqueue r w) = json_pending w @ [r]"
  by (simp add: enqueue_def json_pending_def logToCSV_def csv_flush_def flushLogs_def Let_def)

lemma enqueue_csvBuffer:
  "csvBuffer (csvLogger (logger (enqueue r w))) =
     csvBuffer (csvLogger (logger w)) @ [formatToCSVEntry (toISOString w (clock w)) r]"
  by (simp add: enqueue_def logToCSV_def csv_flush_def flushLogs_def Let_def)

lemma enqueue_batchSize: "batchSize (logger (enqueue r w)) = batchSize (logger w)"
  by (simp add: enqueue_def logToCSV_def csv_flush_def flushLogs_def Let_def)

lemma enqueue_flushes:
  "batchSize (logger w) \<le> length (logQueue (logger w)) + 1 \<Longrightarrow>
     logQueue (logger (enqueue r w)) = [] \<and>
     jsonPosts (enqueue r w) = jsonPosts w @ [logQueue (logger w) @ [r]]"
  by (simp add: enqueue_def logToCSV_def csv_flush_def flushLogs_def Let_def)

lemma enqueue_below_threshold:
  "0 < batchSize (logger w) \<Longrightarrow>
     length (logQueue (logger (enqueue r w))) < batchSize (logger w)"
  by (simp add: enqueue_def logToCSV_def csv_flush_def flushLogs_def Let_def)

lemma enqueue_posts_prefix: "prefix (jsonPosts w) (jsonPosts (enqueue r w))"
  by (simp add: enqueue_def logToCSV_def csv_flush_def flushLogs_def Let_def)

lemma logInteraction_accepted:
  "accepted event d w \<Longrightarrow>
     logInteraction event d w = Inr (enqueue (interactionOf event d w) w)"
  by (auto simp: accepted_def logInteraction_def interactionOf_def split: sum.splits)

lemma logInteraction_result:
  "logInteraction event d w = Inr w1 \<Longrightarrow>
     w1 = w \<or> (accepted event d w \<and> w1 = enqueue (interactionOf event d w) w)"
  by (auto simp: accepted_def logInteraction_def interactionOf_def split: sum.splits if_splits)

lemma logMany_below_threshold:
  "0 < batchSize (logger w) \<Longrightarrow> length (logQueue (logger w)) < batchSize (logger w) \<Longrightarrow>
     length (logQueue (logger (logMany calls w))) < batchSize (logger (logMany calls w)) \<and>
     batchSize (logger (logMany calls w)) = batchSize (logger w)"
proof (induction calls arbitrary: w)
  case Nil
  then show ?case by simp
next
  case (Cons c cs)
  let ?w1 = "case logInteraction (fst c) (snd c) w of Inl e \<Rightarrow> w | Inr w1 \<Rightarrow> w1"
  have step: "batchSize (logger ?w1) = batchSize (logger w) \<and>
              length (logQueue (logger ?w1)) < batchSize (logger w)"
  proof (cases "logInteraction (fst c) (snd c) w")
    case (Inl e)
    with Cons.prems show ?thesis by simp
  next
    case (Inr w1)
    from logInteraction_result [OF Inr] Cons.prems Inr show ?thesis
      by (auto simp: enqueue_batchSize enqueue_below_threshold)
  qed
  with Cons.IH [of ?w1] Cons.prems show ?case by simp
qed

lemma logMany_posts_prefix: "prefix (jsonPosts w) (jsonPosts (logMany calls w))"
proof (induction calls arbitrary: w)
  case Nil
  then show ?case by simp
next
  case (Cons c cs)
  let ?w1 = "case logInteraction (fst c) (snd c) w of Inl e \<Rightarrow> w | Inr w1 \<Rightarrow> w1"
  have "prefix (jsonPosts w) (jsonPosts ?w1)"
  proof (cases "logInteraction (fst c) (snd c) w")
    case (Inl e)
    then show ?thesis by simp
  next
    case (Inr w1)
    from logInteraction_result [OF Inr] Inr show ?thesis
      by (auto simp: enqueue_posts_prefix)
  qed
  with Cons.IH [of ?w1] show ?case
    by (auto intro: prefix_order.trans)
qed

lemma enqueue_frame:
  "timeouts (enqueue r w) = timeouts w"
  "clock (enqueue r w) = clock w"
  "document (enqueue r w) = document w"
  "inputChangeTimers (logger (enqueue r w)) = inputChangeTimers (logger w)"
  "inputChangeValues (logger (enqueue r w)) = inputChangeValues (logger w)"
  "isEnabled (logger (enqueue r w)) = isEnabled (logger w)"
  by (simp_all add: enqueue_def logToCSV_def csv_flush_def flushLogs_def Let_def)

text \<open>
  The flush of the CSV logger posts the lines of the whole buffer and keeps the buffer:
  only an ok response empties it.
\<close>

lemma csv_flush_keeps_buffer:
  "csvBuffer (csvLogger (logger w)) \<noteq> [] \<Longrightarrow>
     csvPosts (csv_flush w) = csvPosts w @ [map csv_line (csvBuffer (csvLogger (logger w)))] \<and>
     csvBuffer (csvLogger (logger (csv_flush w))) = csvBuffer (csvLogger (logger w))"
  by (simp add: csv_flush_def)

text \<open>
  Within the call, an accepted record (the logger is enabled and the noise toggle does
  not drop the record) is appended once to the JSON path and once to the buffer of the
  CSV logger: the records queued or in flight grow by exactly that record, and the CSV
  buffer grows by exactly the entry formatted from it.
\<close>

lemma accepted_record_appended_once:
  "accepted event d w \<Longrightarrow>
     \<exists>w1. logInteraction event d w = Inr w1 \<and>
       json_pending w1 = json_pending w @ [interactionOf event d w] \<and>
       csvBuffer (csvLogger (logger w1)) =
         csvBuffer (csvLogger (logger w)) @
           [formatToCSVEntry (toISOString w (clock w)) (interactionOf event d w)]"
  by (simp add: logInteraction_accepted enqueue_json_pending enqueue_csvBuffer)

text \<open>
  Claim C7, on twelve accepted calls to a fresh logger whose CSV requests are all
  answered with status 200. The JSON path posts the first ten records once and queues
  the eleventh. The CSV logger posts its ten buffered lines at the tenth call and, that
  request still pending, eleven lines at the eleventh call: the first ten lines are sent
  twice. The first response empties the buffer. The twelfth call buffers its entry and
  posts nothing; the second response empties the buffer again, and the entry of the
  twelfth record is gone without having been in any request. No delivery has failed.
\<close>

theorem csv_sink_reposts_and_drops:
  "(let w11 = logMany (replicate 11 (''click'', [])) demo_world;
        s11 = csv_flush_settled 0 (Response 200) w11
    in map length (jsonPosts w11) = [10] \<and>
       length (logQueue (logger w11)) = 1 \<and>
       map length (csvPosts w11) = [10, 11] \<and>
       take 10 (csvPosts w11 ! 1) = csvPosts w11 ! 0 \<and>
       length (csvBuffer (csvLogger (logger w11))) = 11 \<and>
       csvBuffer (csvLogger (logger s11)) = [] \<and>
       map length (csvPosts s11) = [11] \<and>
       (case logInteraction ''click'' [(''component'', JStr ''Checkout'')] s11 of
          Inl e \<Rightarrow> False
        | Inr w12 \<Rightarrow>
            map component (logQueue (logger w12)) = [JStr ''unknown'', JStr ''Checkout''] \<and>
            map csv_component (csvBuffer (csvLogger (logger w12))) = [JStr ''Checkout''] \<and>
            csvPosts w12 = csvPosts s11 \<and>
            csvBuffer (csvLogger (logger (csv_flush_settled 0 (Response 200) w12))) = [] \<and>
            csvPosts (csv_flush_settled 0 (Response 200) w12) = []))"
  by code_simp

text \<open>
  Claim C6. With a positive batch size (it is 10), an accepted call that brings the
  queue to the batch size flushes within the call: the queue is empty when the call
  returns and the whole queue, the new record last, has been posted. So the queue is
  shorter than the batch size after every accepted call, and it stays shorter through
  any sequence of calls that starts below the batch size (no delivery fails in between,
  as none settles).
\<close>

theorem full_queue_flushes_at_once:
  assumes "0 < batchSize (logger w)"
  shows "(accepted event d w \<longrightarrow>
            (\<exists>w1. logInteraction event d w = Inr w1 \<and>
               (batchSize (logger w) \<le> length (logQueue (logger w)) + 1 \<longrightarrow>
                  logQueue (logger w1) = [] \<and>
                  jsonPosts w1 = jsonPosts w @ [logQueue (logger w) @ [interactionOf event d w]]) \<and>
               length (logQueue (logger w1)) < batchSize (logger w1))) \<and>
         (length (logQueue (logger w)) < batchSize (logger w) \<longrightarrow>
            length (logQueue (logger (logMany calls w))) < batchSize (logger (logMany calls w)))"
  using assms logMany_below_threshold [of w calls]
  by (auto simp: logInteraction_accepted enqueue_flushes enqueue_below_threshold enqueue_batchSize)

theorem full_queue_flushes_at_once_witness:
  "0 < batchSize (logger nine_queued) \<and>
   accepted ''click'' [] nine_queued \<and>
   batchSize (logger nine_queued) = 10 \<and>
   length (logQueue (logger nine_queued)) = 9 \<and>
   (\<exists>w1. logInteraction ''click'' [] nine_queued = Inr w1 \<and>
      logQueue (logger w1) = [] \<and>
      jsonPosts w1 =
        jsonPosts nine_queued @
          [logQueue (logger nine_queued) @ [interactionOf ''click'' [] nine_queued]] \<and>
      length (logQueue (logger w1)) < batchSize (logger w1)) \<and>
   length (logQueue (logger (logMany (replicate 12 (''click'', [])) nine_queued)))
     < batchSize (logger (logMany (replicate 12 (''click'', [])) nine_queued))"
proof -
  have h: "0 < batchSize (logger nine_queued)" "accepted ''click'' [] nine_queued"
    "batchSize (logger nine_queued) = 10" "length (logQueue (logger nine_queued)) = 9"
    by (simp_all add: accepted_def nine_queued_def demo_world_def newLogger_def
        isSystemNoiseEnhanced_def isSystemNoise_def url_rule_def not_noise_def)
  from full_queue_flushes_at_once [OF h(1), of "''click''" "[]" "replicate 12 (''click'', [])"] h
  show ?thesis
    by auto
qed

section \<open>Delivery failure\<close>

lemma flushLogs_snapshot:
  "logQueue (logger w) \<noteq> [] \<Longrightarrow>
     jsonPosts (flushLogs w) = jsonPosts w @ [logQueue (logger w)] \<and>
     logQueue (logger (flushLogs w)) = []"
  by (simp add: flushLogs_def Let_def)

lemma failed_delivery_requeues:
  "i < length (jsonPosts w) \<Longrightarrow> delivery_failed outcome \<Longrightarrow>
     logQueue (logger (flushLogs_settled i outcome w)) = jsonPosts w ! i @ logQueue (logger w)"
  by (auto simp: flushLogs_settled_def delivery_failed_def Let_def split: fetch_outcome.splits)

text \<open>
  Claim C3. When the delivery of a posted batch fails (a response that is not ok, or a
  rejected request), the live queue afterwards is the whole batch, in its order, followed
  by what the queue held at that moment, and no exception reaches the caller (the result
  is a state). In particular, for a flush of a non-empty queue followed by any calls of
  \<^verbatim>\<open>logInteraction\<close> while the request is in flight, the queue after the failure is
  the flushed queue followed by the records that those calls left in the queue.
\<close>

theorem failed_flush_requeues_at_front:
  "(i < length (jsonPosts w) \<and> delivery_failed outcome \<longrightarrow>
      logQueue (logger (flushLogs_settled i outcome w)) = jsonPosts w ! i @ logQueue (logger w)) \<and>
   (logQueue (logger w) \<noteq> [] \<and> delivery_failed outcome \<longrightarrow>
      logQueue (logger (flushLogs_settled (length (jsonPosts w)) outcome
                          (logMany calls (flushLogs w)))) =
        logQueue (logger w) @ logQueue (logger (logMany calls (flushLogs w))))"
proof (intro conjI impI)
  assume "i < length (jsonPosts w) \<and> delivery_failed outcome"
  then show "logQueue (logger (flushLogs_settled i outcome w)) = jsonPosts w ! i @ logQueue (logger w)"
    by (simp add: failed_delivery_requeues)
next
  assume a: "logQueue (logger w) \<noteq> [] \<and> delivery_failed outcome"
  let ?w2 = "logMany calls (flushLogs w)"
  from a have snap: "jsonPosts (flushLogs w) = jsonPosts w @ [logQueue (logger w)]"
    by (simp add: flushLogs_snapshot)
  obtain more where m: "jsonPosts ?w2 = jsonPosts (flushLogs w) @ more"
    using logMany_posts_prefix [of "flushLogs w" calls] by (auto simp: prefix_def)
  from snap m have "length (jsonPosts w) < length (jsonPosts ?w2)"
    and "jsonPosts ?w2 ! length (jsonPosts w) = logQueue (logger w)"
    by (simp_all add: nth_append)
  with a show "logQueue (logger (flushLogs_settled (length (jsonPosts w)) outcome ?w2)) =
        logQueue (logger w) @ logQueue (logger ?w2)"
    by (simp add: failed_delivery_requeues)
qed

theorem failed_flush_requeues_at_front_witness:
  "delivery_failed (Response 500) \<and> logQueue (logger two_queued) \<noteq> [] \<and>
   0 < length (jsonPosts (flushLogs two_queued)) \<and>
   logQueue (logger (flushLogs_settled 0 (Response 500) (flushLogs two_queued))) =
     jsonPosts (flushLogs two_queued) ! 0 @ logQueue (logger (flushLogs two_queued)) \<and>
   logQueue (logger (flushLogs_settled (length (jsonPosts two_queued)) (Response 500)
                       (logMany [(''page_view'', [])] (flushLogs two_queued)))) =
     logQueue (logger two_queued) @
       logQueue (logger (logMany [(''page_view'', [])] (flushLogs two_queued))) \<and>
   logQueue (logger two_queued) = [click_record, scroll_record] \<and>
   jsonPosts (flushLogs two_queued) ! 0 = [click_record, scroll_record]"
proof -
  have h: "delivery_failed (Response 500)" "logQueue (logger two_queued) \<noteq> []"
    "0 < length (jsonPosts (flushLogs two_queued))"
    "logQueue (logger two_queued) = [click_record, scroll_record]"
    "jsonPosts (flushLogs two_queued) ! 0 = [click_record, scroll_record]"
    by (simp_all add: delivery_failed_def response_ok_def two_queued_def flushLogs_def
        demo_world_def newLogger_def)
  note a = mp [OF conjunct1 [OF failed_flush_requeues_at_front
    [of 0 "flushLogs two_queued" "Response 500" "[(''page_view'', [])]"]] conjI [OF h(3) h(1)]]
  note b = mp [OF conjunct2 [OF failed_flush_requeues_at_front
    [of 0 two_queued "Response 500" "[(''page_view'', [])]"]] conjI [OF h(2) h(1)]]
  show ?thesis
    apply (intro conjI)
          apply (rule h(1))
         apply (rule h(2))
        apply (rule h(3))
       apply (rule a)
      apply (rule b)
     apply (rule h(4))
    apply (rule h(5))
    done
qed

section \<open>Sensitive fields\<close>

text \<open>
  Claim C1, at a login attempt whose payload carries the password: the record that
  \<^verbatim>\<open>logInteraction\<close> queues has the length 7 in \<^verbatim>\<open>password_length\<close>, and it
  also has the payload itself, password included, in \<^verbatim>\<open>details\<close>; the entry that
  the CSV logger buffers has the password in its serialized \<^verbatim>\<open>details\<close> column.
\<close>

theorem password_kept_in_details:
  "(case logInteraction ''login_attempt'' login_payload demo_world of
      Inl e \<Rightarrow> False
    | Inr w1 \<Rightarrow>
        map password_length (logQueue (logger w1)) = [JNum 7] \<and>
        map details (logQueue (logger w1)) = [login_payload] \<and>
        getp login_payload ''password'' = JStr ''hunter2'' \<and>
        map csv_details (csvBuffer (csvLogger (logger w1))) =
          [JStr (''{'' @ json_quote ''trigger'' @ '':'' @ json_quote ''submit'' @ '','' @
                 json_quote ''username'' @ '':'' @ json_quote ''alice'' @ '','' @
                 json_quote ''password'' @ '':'' @ json_quote ''hunter2'' @ ''}'')] \<and>
        map (\<lambda>entry. opt_includes (csv_details entry) ''hunter2'')
          (csvBuffer (csvLogger (logger w1))) = [Inr True])"
  by code_simp

section \<open>The viewer on malformed records\<close>

lemma missing_timestamp_fallback:
  "map_sum id time_text (renderLogCard toLocale currentSessionId stored_without_timestamp) =
     Inr ''Unknown time''"
  by (simp add: renderLogCard_def stored_without_timestamp_def sessionLabel_def keysCount_def
      getp_def str_or_def member_def formatTimestamp_def js_or_def)

text \<open>
  Claim C8, at a stored record that has no \<^verbatim>\<open>details\<close>: rendering its card raises a
  TypeError, from \<^verbatim>\<open>Object.keys(log.details)\<close>, instead of showing an empty detail
  block.
\<close>

theorem missing_details_crash:
  "renderLogCard toLocale currentSessionId stored_without_details = Inl TypeError"
  by (simp add: renderLogCard_def stored_without_details_def sessionLabel_def keysCount_def
      getp_def str_or_def)

section \<open>Debounced input changes\<close>





lemma json_pending_logger_maps [simp]:
  "json_pending (w\<lparr>logger := (logger w)\<lparr>inputChangeValues := vs\<rparr>\<rparr>) = json_pending w"
  "json_pending (w\<lparr>logger := (logger w)\<lparr>inputChangeValues := vs, inputChangeTimers := ts\<rparr>\<rparr>) = json_pending w"
  "json_pending (w\<lparr>logger := (logger w)\<lparr>inputChangeTimers := ts\<rparr>\<rparr>) = json_pending w"
  "json_pending (w\<lparr>clock := c\<rparr>) = json_pending w"
  "json_pending (w\<lparr>timeouts := tos\<rparr>) = json_pending w"
  "json_pending (w\<lparr>clock := c, timeouts := tos\<rparr>) = json_pending w"
  by (simp_all add: json_pending_def)

lemma enqueue_page:
  "nextTimerId (enqueue r w) = nextTimerId w"
  "cssQuery (enqueue r w) = cssQuery w"
  by (simp_all add: enqueue_def logToCSV_def csv_flush_def flushLogs_def Let_def)


text \<open>What the timer's callback leaves as it was.\<close>

lemma callback_frame:
  assumes "logDebouncedInputChange k1 w = Inr w1"
  shows "timeouts w1 = timeouts w" and "nextTimerId w1 = nextTimerId w" and "clock w1 = clock w"
    and "same_page w w1"
    and "k \<noteq> k1 \<Longrightarrow> map_of (inputChangeTimers (logger w1)) k = map_of (inputChangeTimers (logger w)) k"
    and "k \<noteq> k1 \<Longrightarrow> map_of (inputChangeValues (logger w1)) k = map_of (inputChangeValues (logger w)) k"
  using assms logInteraction_result
  by (auto simp: logDebouncedInputChange_def same_page_def enqueue_frame enqueue_page delete_conv'
      split: option.splits sum.splits dest!: logInteraction_result)

lemma fire_cases:
  obtains (idle) "fire t w = w" "fst t \<notin> fst ` set (timeouts w)"
  | (threw) "fire t w = w\<lparr>clock := max (clock w) (fst (snd t)),
                          timeouts := filter (\<lambda>u. fst u \<noteq> fst t) (timeouts w)\<rparr>"
  | (ran) w2 where "fire t w = w2"
      "logDebouncedInputChange (snd (snd t))
         (w\<lparr>clock := max (clock w) (fst (snd t)),
            timeouts := filter (\<lambda>u. fst u \<noteq> fst t) (timeouts w)\<rparr>) = Inr w2"
proof (cases "fst t \<in> fst ` set (timeouts w)")
  case False
  then have "fire t w = w" by (simp add: fire_def)
  with False show ?thesis by (rule idle [rotated])
next
  case True
  let ?w1 = "w\<lparr>clock := max (clock w) (fst (snd t)),
               timeouts := filter (\<lambda>u. fst u \<noteq> fst t) (timeouts w)\<rparr>"
  show ?thesis
  proof (cases "logDebouncedInputChange (snd (snd t)) ?w1")
    case (Inl e)
    with True have "fire t w = ?w1" by (simp add: fire_def Let_def)
    then show ?thesis by (rule threw)
  next
    case (Inr w2)
    with True have "fire t w = w2" by (simp add: fire_def Let_def)
    then show ?thesis using Inr by (rule ran)
  qed
qed

lemma fire_timeouts: "timeouts (fire t w) = filter (\<lambda>u. fst u \<noteq> fst t) (timeouts w)"
proof (cases t w rule: fire_cases)
  case idle
  from idle(2) have "\<forall>u \<in> set (timeouts w). fst u \<noteq> fst t"
    by (metis imageI)
  then have "filter (\<lambda>u. fst u \<noteq> fst t) (timeouts w) = timeouts w"
    by (simp add: filter_id_conv)
  with idle show ?thesis by simp
next
  case threw
  then show ?thesis by simp
next
  case (ran w2)
  from callback_frame(1) [OF ran(2)] ran(1) show ?thesis by simp
qed




text \<open>Firing timeouts of other fields leaves the field \<open>k\<close> alone.\<close>

lemma run_Cons: "run (t # ts) w = run ts (fire t w)"
  by (simp add: run_def)










lemma timeout_eq: "t = (fst t, dueOf t, keyOf t)"
  by (simp add: dueOf_def keyOf_def)

text \<open>An input event on the field \<open>k\<close> replaces the field's timeout and no other.\<close>

lemma debounced_timeouts:
  assumes "timers_ok k w" and "fieldKeyOf t = k"
  shows "timeouts (debouncedInputChange t w) =
           of_others k (timeouts w) @ [(nextTimerId w, clock w + 500, k)]"
proof (cases "map_of (inputChangeTimers (logger w)) k")
  case None
  with assms(1) have "\<forall>u \<in> set (timeouts w). keyOf u \<noteq> k"
    by (simp add: timers_ok_def)
  then have "of_others k (timeouts w) = timeouts w"
    by (simp add: of_others_def filter_id_conv)
  with None assms(2) show ?thesis
    by (simp add: debouncedInputChange_def Let_def)
next
  case (Some m)
  with assms(1) have "\<And>u. u \<in> set (timeouts w) \<Longrightarrow> (fst u \<noteq> m) = (keyOf u \<noteq> k)"
    by (auto simp: timers_ok_def)
  then have "filter (\<lambda>u. fst u \<noteq> m) (timeouts w) = of_others k (timeouts w)"
    unfolding of_others_def by (rule filter_cong [OF refl])
  with Some assms(2) show ?thesis
    by (simp add: debouncedInputChange_def clearTimeout_def Let_def)
qed

lemma debounced_frame:
  shows "clock (debouncedInputChange t w) = clock w"
    and "nextTimerId (debouncedInputChange t w) = Suc (nextTimerId w)"
    and "same_page w (debouncedInputChange t w)"
    and "json_pending (debouncedInputChange t w) = json_pending w"
    and "map_of (inputChangeTimers (logger (debouncedInputChange t w))) (fieldKeyOf t) =
           Some (nextTimerId w)"
    and "map_of (inputChangeValues (logger (debouncedInputChange t w))) (fieldKeyOf t) =
           Some (storedOf t)"
  by (simp_all add: debouncedInputChange_def clearTimeout_def Let_def same_page_def
      json_pending_def storedOf_def update_conv' split: option.splits)

lemma debounced_arms:
  assumes "timers_ok k w" and "fieldKeyOf t = k"
  shows "armed k (storedOf t) (nextTimerId w) (clock w + 500) (debouncedInputChange t w)"
    and "timers_ok k (debouncedInputChange t w)"
    and "of_others k (timeouts (debouncedInputChange t w)) = of_others k (timeouts w)"
proof -
  let ?w1 = "debouncedInputChange t w"
  note ts = debounced_timeouts [OF assms]
  note fr = debounced_frame [where t = t and w = w, unfolded assms(2)]
  show "armed k (storedOf t) (nextTimerId w) (clock w + 500) ?w1"
    by (simp add: armed_def ts fr)
  show "of_others k (timeouts ?w1) = of_others k (timeouts w)"
    by (simp add: ts of_others_def keyOf_def)
  from assms(1) have d: "distinct (map fst (timeouts w))"
    and b: "\<forall>u \<in> set (timeouts w). fst u < nextTimerId w"
    by (simp_all add: timers_ok_def)
  have "distinct (map fst (of_others k (timeouts w)))"
    using d by (simp add: of_others_def distinct_map_filter)
  moreover have b1: "\<forall>u \<in> set (of_others k (timeouts w)). fst u < nextTimerId w \<and> keyOf u \<noteq> k"
    using b by (simp add: of_others_def)
  ultimately show "timers_ok k ?w1"
    by (auto simp: timers_ok_def ts fr keyOf_def)
qed

lemma set_due_now:
  "set (due_now g w) = {t \<in> set (timeouts w). dueOf t \<le> clock w + g}"
  by (auto simp: due_now_def dueOf_def)

















lemma of_field_due_now:
  assumes "of_field k (timeouts w) = []"
  shows "of_field k (due_now g w) = []"
  using assms by (auto simp: of_field_def filter_empty_conv set_due_now)

text \<open>
  \<open>timers_ok\<close> holds of a fresh logger and is kept by every step: an input event on any
  field, a timeout that fires, the passing of time, a blur on any field, a call of
  \<^verbatim>\<open>logInteraction\<close>.
\<close>

lemma timers_ok_fresh:
  "timeouts w = [] \<Longrightarrow> inputChangeTimers (logger w) = [] \<Longrightarrow> timers_ok k w"
  by (simp add: timers_ok_def)

lemma timers_ok_debounced:
  assumes "timers_ok k w"
  shows "timers_ok k (debouncedInputChange t w)"
proof (cases "fieldKeyOf t = k")
  case True
  with assms show ?thesis by (rule debounced_arms(2))
next
  case False
  define ts where "ts =
    (case map_of (inputChangeTimers (logger w)) (fieldKeyOf t) of
       Some tid \<Rightarrow> filter (\<lambda>u. fst u \<noteq> tid) (timeouts w) | None \<Rightarrow> timeouts w)"
  have ts: "timeouts (debouncedInputChange t w) =
              ts @ [(nextTimerId w, clock w + 500, fieldKeyOf t)]"
    by (simp add: ts_def debouncedInputChange_def clearTimeout_def Let_def split: option.splits)
  have nx: "nextTimerId (debouncedInputChange t w) = Suc (nextTimerId w)"
    by (rule debounced_frame)
  have m: "map_of (inputChangeTimers (logger (debouncedInputChange t w))) k =
             map_of (inputChangeTimers (logger w)) k"
    using False
    by (simp add: debouncedInputChange_def clearTimeout_def Let_def update_conv'
        split: option.splits)
  have sub: "set ts \<subseteq> set (timeouts w)"
    by (auto simp: ts_def split: option.splits)
  from assms have d: "distinct (map fst (timeouts w))"
    and b: "\<forall>u \<in> set (timeouts w). fst u < nextTimerId w"
    and i: "\<forall>u \<in> set (timeouts w).
              (keyOf u = k) = (map_of (inputChangeTimers (logger w)) k = Some (fst u))"
    and c: "case map_of (inputChangeTimers (logger w)) k of None \<Rightarrow> True
            | Some n \<Rightarrow> n < nextTimerId w"
    by (simp_all add: timers_ok_def)
  have d1: "distinct (map fst ts)"
    using d by (simp add: ts_def distinct_map_filter split: option.splits)
  from sub b have b1: "\<forall>u \<in> set ts. fst u < nextTimerId w" by blast
  from sub i have i1: "\<forall>u \<in> set ts.
              (keyOf u = k) = (map_of (inputChangeTimers (logger w)) k = Some (fst u))" by blast
  from b1 have fresh: "nextTimerId w \<notin> fst ` set ts" by auto
  from c have ne: "map_of (inputChangeTimers (logger w)) k \<noteq> Some (nextTimerId w)"
    by (auto split: option.splits)
  from c have c1: "case map_of (inputChangeTimers (logger w)) k of None \<Rightarrow> True
                   | Some n \<Rightarrow> n < Suc (nextTimerId w)"
    by (auto split: option.splits)
  have "distinct (map fst (ts @ [(nextTimerId w, clock w + 500, fieldKeyOf t)]))"
    using d1 fresh by simp
  moreover have "\<forall>u \<in> set (ts @ [(nextTimerId w, clock w + 500, fieldKeyOf t)]).
                   fst u < Suc (nextTimerId w)"
    using b1 by auto
  moreover have "\<forall>u \<in> set (ts @ [(nextTimerId w, clock w + 500, fieldKeyOf t)]).
                   (keyOf u = k) = (map_of (inputChangeTimers (logger w)) k = Some (fst u))"
    using i1 ne False by (auto simp: keyOf_def)
  ultimately show ?thesis
    unfolding timers_ok_def ts nx m using c1 by simp
qed

lemma timers_ok_subset:
  assumes ok: "timers_ok k w" and ts: "timeouts w1 = filter P (timeouts w)"
    and nx: "nextTimerId w1 = nextTimerId w"
    and m: "map_of (inputChangeTimers (logger w1)) k = map_of (inputChangeTimers (logger w)) k \<or>
            (map_of (inputChangeTimers (logger w1)) k = None \<and>
             (\<forall>u \<in> set (timeouts w1). keyOf u \<noteq> k))"
  shows "timers_ok k w1"
proof -
  from ok have d: "distinct (map fst (timeouts w))"
    and b: "\<forall>u \<in> set (timeouts w). fst u < nextTimerId w"
    and i: "\<forall>u \<in> set (timeouts w).
              (keyOf u = k) = (map_of (inputChangeTimers (logger w)) k = Some (fst u))"
    and c: "case map_of (inputChangeTimers (logger w)) k of None \<Rightarrow> True
            | Some n \<Rightarrow> n < nextTimerId w"
    by (simp_all add: timers_ok_def)
  have d1: "distinct (map fst (timeouts w1))"
    unfolding ts using d by (rule distinct_map_filter)
  have b1: "\<forall>u \<in> set (timeouts w1). fst u < nextTimerId w1"
    unfolding ts nx using b by simp
  from m show ?thesis
  proof
    assume e: "map_of (inputChangeTimers (logger w1)) k = map_of (inputChangeTimers (logger w)) k"
    have "\<forall>u \<in> set (timeouts w1).
            (keyOf u = k) = (map_of (inputChangeTimers (logger w)) k = Some (fst u))"
      unfolding ts using i by simp
    with d1 b1 c show ?thesis
      unfolding timers_ok_def e nx by simp
  next
    assume e: "map_of (inputChangeTimers (logger w1)) k = None \<and>
               (\<forall>u \<in> set (timeouts w1). keyOf u \<noteq> k)"
    with d1 b1 show ?thesis
      unfolding timers_ok_def by simp
  qed
qed

lemma timers_ok_callback:
  assumes ok: "timers_ok k w" and cb: "logDebouncedInputChange k1 w = Inr w2"
    and nf: "k1 = k \<Longrightarrow> of_field k (timeouts w) = []"
  shows "timers_ok k w2"
proof -
  have ts: "timeouts w2 = filter (\<lambda>u. True) (timeouts w)"
    using callback_frame(1) [OF cb] by simp
  note nx = callback_frame(2) [OF cb]
  have "map_of (inputChangeTimers (logger w2)) k = map_of (inputChangeTimers (logger w)) k \<or>
        (map_of (inputChangeTimers (logger w2)) k = None \<and> k1 = k)"
  proof (cases "k1 = k")
    case False
    then show ?thesis using callback_frame(5) [OF cb, of k] by simp
  next
    case True
    from cb have "w2 = w \<or> map_of (inputChangeTimers (logger w2)) k1 = None"
      by (auto simp: logDebouncedInputChange_def delete_conv' split: option.splits sum.splits)
    with True show ?thesis by auto
  qed
  moreover have "\<forall>u \<in> set (timeouts w2). keyOf u \<noteq> k" if "k1 = k"
    using nf [OF that] ts by (simp add: of_field_def filter_empty_conv)
  ultimately show ?thesis
    by (intro timers_ok_subset [OF ok ts nx]) blast
qed

lemma timers_ok_fire:
  assumes ok: "timers_ok k w" and t: "t \<in> set (timeouts w) \<or> fst t \<notin> fst ` set (timeouts w)"
  shows "timers_ok k (fire t w)"
proof (cases "fst t \<in> fst ` set (timeouts w)")
  case False
  then show ?thesis using ok by (simp add: fire_def)
next
  case True
  with t have tin: "t \<in> set (timeouts w)" by simp
  let ?w1 = "w\<lparr>clock := max (clock w) (fst (snd t)),
               timeouts := filter (\<lambda>u. fst u \<noteq> fst t) (timeouts w)\<rparr>"
  have ok1: "timers_ok k ?w1"
    by (rule timers_ok_subset [OF ok, where P = "\<lambda>u. fst u \<noteq> fst t"]) simp_all
  have nf: "of_field k (timeouts ?w1) = []" if "snd (snd t) = k"
  proof -
    from ok tin that have "map_of (inputChangeTimers (logger w)) k = Some (fst t)"
      by (simp add: timers_ok_def keyOf_def)
    with ok have "\<forall>u \<in> set (timeouts w). keyOf u = k \<longrightarrow> fst u = fst t"
      by (simp add: timers_ok_def)
    then show ?thesis
      by (auto simp: of_field_def filter_empty_conv)
  qed
  show ?thesis
  proof (cases "logDebouncedInputChange (snd (snd t)) ?w1")
    case (Inl e)
    with True have "fire t w = ?w1" by (simp add: fire_def Let_def)
    with ok1 show ?thesis by simp
  next
    case (Inr w2)
    with True have "fire t w = w2" by (simp add: fire_def Let_def)
    moreover from ok1 Inr nf have "timers_ok k w2"
      by (rule timers_ok_callback)
    ultimately show ?thesis by simp
  qed
qed

lemma timers_ok_run:
  assumes "timers_ok k w"
    and "\<forall>t \<in> set ts. t \<in> set (timeouts w) \<or> fst t \<notin> fst ` set (timeouts w)"
  shows "timers_ok k (run ts w)"
  using assms
proof (induction ts arbitrary: w)
  case Nil
  then show ?case by (simp add: run_def)
next
  case (Cons t ts)
  from Cons.prems have ok1: "timers_ok k (fire t w)"
    by (intro timers_ok_fire) simp_all
  have "\<forall>u \<in> set ts. u \<in> set (timeouts (fire t w)) \<or> fst u \<notin> fst ` set (timeouts (fire t w))"
  proof
    fix u assume "u \<in> set ts"
    with Cons.prems(2) have "u \<in> set (timeouts w) \<or> fst u \<notin> fst ` set (timeouts w)" by simp
    then show "u \<in> set (timeouts (fire t w)) \<or> fst u \<notin> fst ` set (timeouts (fire t w))"
      unfolding fire_timeouts by (cases "fst u = fst t") auto
  qed
  with ok1 have "timers_ok k (run ts (fire t w))" by (rule Cons.IH)
  then show ?case by (simp add: run_Cons)
qed

lemma timers_ok_advance:
  assumes "timers_ok k w"
  shows "timers_ok k (advance d w)"
proof -
  have "timers_ok k (run (due_now d w) w)"
    using assms by (rule timers_ok_run) (simp add: set_due_now)
  then show ?thesis
    by (rule timers_ok_subset [where P = "\<lambda>u. True"]) (simp_all add: advance_def)
qed

lemma timers_ok_blur:
  assumes ok: "timers_ok k w" and b: "logInputChangeOnBlur b w = Inr w3"
  shows "timers_ok k w3"
proof -
  define w1 where "w1 =
    (case map_of (inputChangeTimers (logger w)) (fieldKeyOf b) of
       Some tid \<Rightarrow>
         (let w0 = clearTimeout tid w
          in w0\<lparr>logger := (logger w0)\<lparr>inputChangeTimers :=
                 AList.delete (fieldKeyOf b) (inputChangeTimers (logger w0))\<rparr>\<rparr>)
     | None \<Rightarrow> w)"
  have ok1: "timers_ok k w1"
  proof (cases "map_of (inputChangeTimers (logger w)) (fieldKeyOf b)")
    case None
    with ok show ?thesis by (simp add: w1_def)
  next
    case (Some tid)
    then have ts: "timeouts w1 = filter (\<lambda>u. fst u \<noteq> tid) (timeouts w)"
      and nx: "nextTimerId w1 = nextTimerId w"
      and m: "map_of (inputChangeTimers (logger w1)) k =
                (if k = fieldKeyOf b then None else map_of (inputChangeTimers (logger w)) k)"
      by (simp_all add: w1_def clearTimeout_def Let_def delete_conv')
    have "\<forall>u \<in> set (timeouts w1). keyOf u \<noteq> k" if "k = fieldKeyOf b"
    proof -
      from ok Some that have "\<forall>u \<in> set (timeouts w). keyOf u = k \<longrightarrow> fst u = tid"
        by (simp add: timers_ok_def)
      then show ?thesis unfolding ts by auto
    qed
    with m show ?thesis
      by (intro timers_ok_subset [OF ok ts nx]) auto
  qed
  have "logInputChangeOnBlur b w =
          (case logInteraction ''input_change''
                  (input_change_details ''blur'' (fieldNameOf b) (el_type b)
                     (finalValueOnBlur b w1) (el_id b)) w1 of
             Inl e \<Rightarrow> Inl e
           | Inr w2 \<Rightarrow>
               Inr (w2\<lparr>logger := (logger w2)\<lparr>inputChangeValues :=
                      AList.delete (fieldKeyOf b) (inputChangeValues (logger w2))\<rparr>\<rparr>))"
    by (simp add: logInputChangeOnBlur_def Let_def w1_def)
  with b obtain w2 where w2: "logInteraction ''input_change''
       (input_change_details ''blur'' (fieldNameOf b) (el_type b) (finalValueOnBlur b w1) (el_id b)) w1 =
       Inr w2"
    and w3: "w3 = w2\<lparr>logger := (logger w2)\<lparr>inputChangeValues :=
                  AList.delete (fieldKeyOf b) (inputChangeValues (logger w2))\<rparr>\<rparr>"
    by (auto split: sum.splits)
  from logInteraction_result [OF w2] have "w2 = w1 \<or> (\<exists>r. w2 = enqueue r w1)" by blast
  then have "timeouts w2 = filter (\<lambda>u. True) (timeouts w1)" and "nextTimerId w2 = nextTimerId w1"
    and "inputChangeTimers (logger w2) = inputChangeTimers (logger w1)"
    by (auto simp: enqueue_frame enqueue_page)
  then show ?thesis
    by (intro timers_ok_subset [OF ok1, where P = "\<lambda>u. True"]) (simp_all add: w3)
qed

lemma timers_ok_logInteraction:
  assumes ok: "timers_ok k w" and l: "logInteraction event d w = Inr w1"
  shows "timers_ok k w1"
proof -
  from logInteraction_result [OF l] have "w1 = w \<or> (\<exists>r. w1 = enqueue r w)" by blast
  then have "timeouts w1 = filter (\<lambda>u. True) (timeouts w)" and "nextTimerId w1 = nextTimerId w"
    and "inputChangeTimers (logger w1) = inputChangeTimers (logger w)"
    by (auto simp: enqueue_frame enqueue_page)
  then show ?thesis
    by (intro timers_ok_subset [OF ok, where P = "\<lambda>u. True"]) simp_all
qed


text \<open>
  A field with neither an id nor a name is stored under its tag name, which the query by
  name or id does not find: the timer's callback returns without a record, and the stored
  input stays in the map until a blur.
\<close>

lemma unnamed_field_settle_emits_nothing:
  "(let typed = debouncedInputChange (anon_field\<lparr>el_value := ''a''\<rparr>) anon_page_world
    in fieldNameOf anon_field = ''INPUT'' \<and>
       querySelector typed ''INPUT'' = Inr None \<and>
       json_pending (advance 500 typed) = [] \<and>
       map fst (inputChangeValues (logger (advance 500 typed))) = [''INPUT_text''])"
  by code_simp

text \<open>
  Claim C10, on a text field whose name is the id of a password field that stands
  earlier in the document. The value \<^verbatim>\<open>1234\<close> is typed into the text field. When
  the debounce timeout expires, the callback looks the element up by the stored field
  name and finds the password field: its record holds the type \<^verbatim>\<open>password\<close> and the
  value \<^verbatim>\<open>[HIDDEN]\<close>, not \<^verbatim>\<open>1234\<close>. A blur on the text field after the same
  keystroke reads the type of the field itself, and its record holds \<^verbatim>\<open>1234\<close>.
  Where the field found is the field typed in, the cut is made: 120 characters typed
  into the email field are logged as their first 100 characters, with the length 120.
\<close>

theorem text_value_logged_hidden:
  "(let typed = debouncedInputChange pin_text pin_world
    in el_type pin_text = Some ''text'' \<and> el_value pin_text = ''1234'' \<and>
       querySelector typed (fieldNameOf pin_text) = Inr (Some pin_password) \<and>
       map (\<lambda>r. (inputName r, inputType r, inputValue r, finalValueLength r))
         (json_pending (advance 500 typed)) =
         [(JStr ''pin'', JStr ''password'', JStr ''[HIDDEN]'', JNum 4)] \<and>
       (case logInputChangeOnBlur pin_text typed of
          Inl e \<Rightarrow> False
        | Inr w \<Rightarrow>
            map (\<lambda>r. (inputName r, inputType r, inputValue r, finalValueLength r))
              (json_pending w) =
              [(JStr ''pin'', JStr ''text'', JStr ''1234'', JNum 4)]) \<and>
       map (\<lambda>r. (inputValue r, finalValueLength r))
         (json_pending (advance 500
            (debouncedInputChange (email_field\<lparr>el_value := replicate 120 (CHR ''x'')\<rparr>) page_world))) =
         [(JStr (replicate 100 (CHR ''x'')), JNum 120)])"
  by code_simp




end
